theory Spec2Isabelle
  imports Main "HOL-Library.Word"
begin

section \<open>The fluentd hook for logrus (fluent.go)\<close>

text \<open>
  A shallow embedding of \<^verbatim>\<open>fluent.go\<close>. Pointers that the methods mutate
  (\<^verbatim>\<open>hook *FluentHook\<close>, the \<^verbatim>\<open>data\<close> map, \<^verbatim>\<open>entry *logrus.Entry\<close>) are passed
  and returned as values. A Go map that is only indexed, stored into or deleted from is a
  HOL map; a Go map that the code walks with \<^verbatim>\<open>range\<close> is given as the list of its
  entries in the order of the walk (Go fixes no order, so a statement about such a list
  is made for every list). A nil pointer is \<open>None\<close>.
\<close>

subsection \<open>Values of the logging library\<close>

text \<open>
  \<^verbatim>\<open>interface{}\<close>: the dynamic values a log field can hold. The only dynamic type the
  hook tests for is \<^verbatim>\<open>string\<close>.
\<close>

datatype val =
    VNil
  | VBool bool
  | VInt int
  | VString string
  | VList "val list"
  | VMap "(string \<times> val) list"
  | VOpaque nat

text \<open>\<^verbatim>\<open>logrus.Fields\<close> is \<^verbatim>\<open>map[string]interface{}\<close>.\<close>

type_synonym Fields = "string \<rightharpoonup> val"

text \<open>
  \<^verbatim>\<open>logrus.Level\<close> is \<^verbatim>\<open>uint32\<close>, its constants numbered by \<^verbatim>\<open>iota\<close> from
  \<^verbatim>\<open>PanicLevel\<close>.
\<close>

type_synonym Level = "32 word"

definition PanicLevel :: Level where "PanicLevel = 0"
definition FatalLevel :: Level where "FatalLevel = 1"
definition ErrorLevel :: Level where "ErrorLevel = 2"
definition WarnLevel :: Level where "WarnLevel = 3"
definition InfoLevel :: Level where "InfoLevel = 4"
definition DebugLevel :: Level where "DebugLevel = 5"
definition TraceLevel :: Level where "TraceLevel = 6"

text \<open>
  \<^verbatim>\<open>Level.String()\<close> of logrus: the text of \<^verbatim>\<open>MarshalText\<close>, and \<^verbatim>\<open>"unknown"\<close>
  for a number that is no level.
\<close>

definition Level_String :: "Level \<Rightarrow> string" where
  "Level_String level =
     (if level = TraceLevel then ''trace''
      else if level = DebugLevel then ''debug''
      else if level = InfoLevel then ''info''
      else if level = WarnLevel then ''warning''
      else if level = ErrorLevel then ''error''
      else if level = FatalLevel then ''fatal''
      else if level = PanicLevel then ''panic''
      else ''unknown'')"

text \<open>
  \<^verbatim>\<open>logrus.Entry\<close>, with the fields the hook reads. \<open>Data\<close> is walked by \<^verbatim>\<open>Fire\<close>, so
  it is the list of its entries.
\<close>

record Entry =
  Level :: Level
  Message :: string
  Data :: "(string \<times> val) list"

subsection \<open>Constants and the hook\<close>

definition TagName :: string where "TagName = ''fluent''"
definition TagField :: string where "TagField = ''tag''"
definition MessageField :: string where "MessageField = ''message''"

definition defaultLevels :: "Level list" where
  "defaultLevels = [PanicLevel, FatalLevel, ErrorLevel, WarnLevel, InfoLevel]"

text \<open>An error value of the transport, opaque to the hook.\<close>

datatype error = TransportError string

text \<open>\<^verbatim>\<open>*client.Client\<close>: what the hook knows of a client is the address it was made for.\<close>

record Client =
  Address :: string

text \<open>
  Modelled from the spec: the \<^verbatim>\<open>Config\<close> struct is declared in a file outside
  \<^verbatim>\<open>src/\<close>; these are the fields \<^verbatim>\<open>fluent.go\<close> reads, with the types it uses them
  at. The two maps are walked by \<^verbatim>\<open>NewWithConfig\<close>.
\<close>

record Config =
  Host :: string
  Port :: "64 word"
  DefaultMessageField :: string
  DisableConnectionPool :: bool
  LogLevels :: "Level list"
  DefaultTag :: string
  DefaultIgnoreFields :: "string list"
  DefaultFilters :: "(string \<times> (val \<Rightarrow> val)) list"

text \<open>
  A customizer receives the entry's pointer and the record's map and may write to both,
  so it returns both.
\<close>

type_synonym customizer = "Entry \<Rightarrow> Fields \<Rightarrow> Entry \<times> Fields"

record FluentHook =
  Fluent :: "Client option"
  conf :: Config
  levels :: "Level list"
  tag :: "string option"
  messageField :: string
  ignoreFields :: "string set"
  filters :: "string \<rightharpoonup> (val \<Rightarrow> val)"
  customizers :: "customizer list"

text \<open>
  The collaborators of the hook: connecting a client made for an address
  (\<^verbatim>\<open>client.New\<close> and \<^verbatim>\<open>Connect\<close>), sending (\<^verbatim>\<open>SendMessage\<close>), and
  \<^verbatim>\<open>ConvertToValue\<close>, a function of this package declared outside \<^verbatim>\<open>src/\<close>, which is
  taken as a parameter.
\<close>

record 'w Transport =
  Connect :: "Client \<Rightarrow> error option"
  SendMessage :: "Client \<Rightarrow> string \<Rightarrow> 'w \<Rightarrow> error option"
  ConvertToValue :: "Fields \<Rightarrow> string \<Rightarrow> 'w"

subsection \<open>Formatting the address\<close>

text \<open>\<^verbatim>\<open>fmt.Sprintf("%s:%d", host, port)\<close> with a Go \<^verbatim>\<open>int\<close> of 64 bits.\<close>

definition digit :: "nat \<Rightarrow> char" where
  "digit d = ''0123456789'' ! d"

fun decimal :: "nat \<Rightarrow> string" where
  "decimal n =
     (if n < 10 then [digit n]
      else decimal (n div 10) @ [digit (n mod 10)])"

definition format_address :: "string \<Rightarrow> 64 word \<Rightarrow> string" where
  "format_address host port =
     host @ '':'' @
       (if sint port < 0 then ''-'' @ decimal (nat (- sint port))
        else decimal (nat (sint port)))"

subsection \<open>Construction and the setters\<close>

fun copyIgnoreFields :: "string list \<Rightarrow> string set \<Rightarrow> string set" where
  "copyIgnoreFields [] m = m"
| "copyIgnoreFields (k # ks) m = copyIgnoreFields ks (insert k m)"

fun copyFilters ::
  "(string \<times> (val \<Rightarrow> val)) list \<Rightarrow> (string \<rightharpoonup> (val \<Rightarrow> val)) \<Rightarrow> (string \<rightharpoonup> (val \<Rightarrow> val))" where
  "copyFilters [] m = m"
| "copyFilters ((k, v) # kvs) m = copyFilters kvs (m(k \<mapsto> v))"

definition NewWithConfig :: "'w Transport \<Rightarrow> Config \<Rightarrow> error + FluentHook" where
  "NewWithConfig tr c =
     (case (if \<not> DisableConnectionPool c
            then (let fd = \<lparr>Address = format_address (Host c) (Port c)\<rparr>
                  in case Connect tr fd of
                       Some err \<Rightarrow> Inl err
                     | None \<Rightarrow> Inr (Some fd))
            else Inr None) of
        Inl err \<Rightarrow> Inl err
      | Inr fd \<Rightarrow>
          Inr \<lparr>Fluent = fd,
               conf = c,
               levels = (if length (LogLevels c) = 0 then defaultLevels else LogLevels c),
               tag = (if DefaultTag c \<noteq> '''' then Some (DefaultTag c) else None),
               messageField =
                 (if DefaultMessageField c \<noteq> '''' then DefaultMessageField c else MessageField),
               ignoreFields = copyIgnoreFields (DefaultIgnoreFields c) {},
               filters = copyFilters (DefaultFilters c) Map.empty,
               customizers = []\<rparr>)"

definition New :: "'w Transport \<Rightarrow> string \<Rightarrow> 64 word \<Rightarrow> error + FluentHook" where
  "New tr host port =
     NewWithConfig tr
       \<lparr>Host = host, Port = port, DefaultMessageField = MessageField,
        DisableConnectionPool = False, LogLevels = [], DefaultTag = '''',
        DefaultIgnoreFields = [], DefaultFilters = []\<rparr>"

text \<open>
  \<^verbatim>\<open>NewHook\<close> drops the error of \<^verbatim>\<open>NewWithConfig\<close> and returns the pointer, which is
  nil when there was one.
\<close>

definition NewHook :: "'w Transport \<Rightarrow> string \<Rightarrow> 64 word \<Rightarrow> FluentHook option" where
  "NewHook tr host port =
     (case NewWithConfig tr
             \<lparr>Host = host, Port = port, DefaultMessageField = MessageField,
              DisableConnectionPool = True, LogLevels = [], DefaultTag = '''',
              DefaultIgnoreFields = [], DefaultFilters = []\<rparr> of
        Inl err \<Rightarrow> None
      | Inr hook \<Rightarrow> Some hook)"

definition Levels :: "FluentHook \<Rightarrow> Level list" where
  "Levels hook = levels hook"

definition SetLevels :: "FluentHook \<Rightarrow> Level list \<Rightarrow> FluentHook" where
  "SetLevels hook ls = hook\<lparr>levels := ls\<rparr>"

definition Tag :: "FluentHook \<Rightarrow> string" where
  "Tag hook = (case tag hook of None \<Rightarrow> '''' | Some t \<Rightarrow> t)"

definition SetTag :: "FluentHook \<Rightarrow> string \<Rightarrow> FluentHook" where
  "SetTag hook t = hook\<lparr>tag := Some t\<rparr>"

definition SetMessageField :: "FluentHook \<Rightarrow> string \<Rightarrow> FluentHook" where
  "SetMessageField hook mf = hook\<lparr>messageField := mf\<rparr>"

definition AddIgnore :: "FluentHook \<Rightarrow> string \<Rightarrow> FluentHook" where
  "AddIgnore hook name = hook\<lparr>ignoreFields := insert name (ignoreFields hook)\<rparr>"

definition AddFilter :: "FluentHook \<Rightarrow> string \<Rightarrow> (val \<Rightarrow> val) \<Rightarrow> FluentHook" where
  "AddFilter hook name fn = hook\<lparr>filters := (filters hook)(name \<mapsto> fn)\<rparr>"

definition AddCustomizer :: "FluentHook \<Rightarrow> customizer \<Rightarrow> FluentHook" where
  "AddCustomizer hook fn = hook\<lparr>customizers := customizers hook @ [fn]\<rparr>"

subsection \<open>Fire\<close>

text \<open>
  The first loop of \<^verbatim>\<open>Fire\<close>: the walk over \<^verbatim>\<open>entry.Data\<close>, storing into \<^verbatim>\<open>data\<close>.
\<close>

fun copyFields :: "FluentHook \<Rightarrow> (string \<times> val) list \<Rightarrow> Fields \<Rightarrow> Fields" where
  "copyFields hook [] data = data"
| "copyFields hook ((k, v) # kvs) data =
     (if k \<in> ignoreFields hook then copyFields hook kvs data
      else copyFields hook kvs
             (data(k \<mapsto> (case filters hook k of Some fn \<Rightarrow> fn v | None \<Rightarrow> v))))"

definition setLevelString :: "Entry \<Rightarrow> Fields \<Rightarrow> Fields" where
  "setLevelString entry data = data(''level'' \<mapsto> VString (Level_String (Level entry)))"

definition setMessage :: "FluentHook \<Rightarrow> Entry \<Rightarrow> Fields \<Rightarrow> Fields" where
  "setMessage hook entry data =
     (case data (messageField hook) of
        Some present \<Rightarrow> data
      | None \<Rightarrow>
          data(messageField hook \<mapsto>
                 (case filters hook (messageField hook) of
                    Some fn \<Rightarrow> fn (VString (Message entry))
                  | None \<Rightarrow> VString (Message entry))))"

text \<open>The second loop of \<^verbatim>\<open>Fire\<close>: the customizers, in the order of the slice.\<close>

fun runCustomizers :: "customizer list \<Rightarrow> Entry \<Rightarrow> Fields \<Rightarrow> Entry \<times> Fields" where
  "runCustomizers [] entry data = (entry, data)"
| "runCustomizers (fn # fns) entry data =
     (case fn entry data of (entry', data') \<Rightarrow> runCustomizers fns entry' data')"

definition getTagAndDel :: "FluentHook \<Rightarrow> Entry \<Rightarrow> Fields \<Rightarrow> string \<times> Fields" where
  "getTagAndDel hook entry data =
     (case tag hook of
        Some t \<Rightarrow> (t, data)
      | None \<Rightarrow>
          (case data TagField of
             None \<Rightarrow> (Message entry, data)
           | Some tagField \<Rightarrow>
               (case tagField of
                  VString t \<Rightarrow> (t, data(TagField := None))
                | _ \<Rightarrow> (Message entry, data))))"

text \<open>
  The body of \<^verbatim>\<open>Fire\<close> between the choice of the logger and the send, in three
  prefixes: \<open>Fire_stamped\<close> is \<^verbatim>\<open>data\<close> after \<^verbatim>\<open>setMessage\<close>, \<open>Fire_customized\<close> the
  entry and \<^verbatim>\<open>data\<close> after the customizers, \<open>Fire_resolved\<close> the tag and \<^verbatim>\<open>data\<close>
  after \<^verbatim>\<open>getTagAndDel\<close>.
\<close>

definition Fire_stamped :: "FluentHook \<Rightarrow> Entry \<Rightarrow> Fields" where
  "Fire_stamped hook entry =
     setMessage hook entry (setLevelString entry (copyFields hook (Data entry) Map.empty))"

definition Fire_customized :: "FluentHook \<Rightarrow> Entry \<Rightarrow> Entry \<times> Fields" where
  "Fire_customized hook entry =
     runCustomizers (customizers hook) entry (Fire_stamped hook entry)"

definition Fire_resolved :: "FluentHook \<Rightarrow> Entry \<Rightarrow> string \<times> Fields" where
  "Fire_resolved hook entry =
     (case Fire_customized hook entry of (entry', data) \<Rightarrow> getTagAndDel hook entry' data)"

text \<open>
  What a call of \<^verbatim>\<open>Fire\<close> did: the error it returned, the message it handed to
  \<^verbatim>\<open>SendMessage\<close> if it got that far, and whether the deferred \<^verbatim>\<open>Disconnect\<close> ran.
\<close>

record 'w fired =
  returned :: "error option"
  sent :: "(Client \<times> string \<times> 'w) option"
  disconnected :: bool

definition Fire :: "'w Transport \<Rightarrow> FluentHook \<Rightarrow> Entry \<Rightarrow> 'w fired" where
  "Fire tr hook entry =
     (case (case Fluent hook of
              Some fd \<Rightarrow> Inr (fd, False)
            | None \<Rightarrow>
                (let logger = \<lparr>Address = format_address (Host (conf hook)) (Port (conf hook))\<rparr>
                 in case Connect tr logger of
                      Some err \<Rightarrow> Inl err
                    | None \<Rightarrow> Inr (logger, True))) of
        Inl err \<Rightarrow> \<lparr>returned = Some err, sent = None, disconnected = False\<rparr>
      | Inr (logger, deferred) \<Rightarrow>
          (case Fire_resolved hook entry of
             (t, data) \<Rightarrow>
               (let fluentData = ConvertToValue tr data TagName
                in \<lparr>returned = SendMessage tr logger t fluentData,
                    sent = Some (logger, t, fluentData),
                    disconnected = deferred\<rparr>)))"

subsection \<open>Inputs for the examples\<close>

text \<open>
  The hook that \<^verbatim>\<open>NewHook("localhost", 24224)\<close> returns, the entry
  \<^verbatim>\<open>WithFields({"user": 42, "tag": "svc.errors"}).Error("boom")\<close>, a filter and two
  customizers.
\<close>

definition plain_hook :: FluentHook where
  "plain_hook =
     \<lparr>Fluent = None,
      conf = \<lparr>Host = ''localhost'', Port = 24224, DefaultMessageField = MessageField,
              DisableConnectionPool = True, LogLevels = [], DefaultTag = '''',
              DefaultIgnoreFields = [], DefaultFilters = []\<rparr>,
      levels = defaultLevels, tag = None, messageField = MessageField,
      ignoreFields = {}, filters = Map.empty, customizers = []\<rparr>"

definition boom_entry :: Entry where
  "boom_entry =
     \<lparr>Level = ErrorLevel, Message = ''boom'',
      Data = [(''user'', VInt 42), (''tag'', VString ''svc.errors'')]\<rparr>"

definition shout :: "val \<Rightarrow> val" where
  "shout v = (case v of VString s \<Rightarrow> VString (s @ ''!'') | _ \<Rightarrow> v)"

definition spoof_level :: customizer where
  "spoof_level entry data = (entry, data(''level'' \<mapsto> VString ''spoofed''))"

definition route_to :: "string \<Rightarrow> customizer" where
  "route_to t entry data = (entry, data(TagField \<mapsto> VString t))"

definition tag_from :: "string \<Rightarrow> customizer" where
  "tag_from k entry data =
     (entry, (case data k of Some v \<Rightarrow> data(TagField \<mapsto> v) | None \<Rightarrow> data))"

text \<open>
  Three more entries: one that supplies the message field, one that also supplies a
  \<^verbatim>\<open>"level"\<close> field, and one whose \<^verbatim>\<open>"tag"\<close> field is a number.
\<close>

definition explicit_entry :: Entry where
  "explicit_entry =
     \<lparr>Level = ErrorLevel, Message = ''boom'', Data = [(''message'', VString ''explicit'')]\<rparr>"

definition user_entry :: Entry where
  "user_entry =
     \<lparr>Level = ErrorLevel, Message = ''boom'',
      Data = [(''user'', VInt 42), (''level'', VString ''fake''),
              (''message'', VString ''explicit'')]\<rparr>"

definition numbered_entry :: Entry where
  "numbered_entry =
     \<lparr>Level = InfoLevel, Message = ''started'', Data = [(''tag'', VInt 7)]\<rparr>"

text \<open>A transport on which every connection and every send succeeds.\<close>

definition open_transport :: "Fields Transport" where
  "open_transport =
     \<lparr>Connect = (\<lambda>c. None), SendMessage = (\<lambda>c t w. None), ConvertToValue = (\<lambda>d n. d)\<rparr>"

subsection \<open>A value through its filter\<close>

text \<open>
  What the copy pass and \<^verbatim>\<open>setMessage\<close> store for a value: the value through the
  filter registered for the field name, or the value itself when none is registered.
\<close>

abbreviation filtered :: "FluentHook \<Rightarrow> string \<Rightarrow> val \<Rightarrow> val" where
  "filtered hook k v \<equiv> (case filters hook k of Some fn \<Rightarrow> fn v | None \<Rightarrow> v)"

section \<open>Properties\<close>

subsection \<open>The examples are what the constructors build\<close>

lemma NewHook_plain: "NewHook tr ''localhost'' 24224 = Some plain_hook"
  by (simp add: NewHook_def NewWithConfig_def plain_hook_def)

lemma Level_String_Error: "Level_String ErrorLevel = ''error''"
  by (simp add: Level_String_def ErrorLevel_def TraceLevel_def DebugLevel_def
      InfoLevel_def WarnLevel_def)

subsection \<open>The copy pass\<close>

lemma copyFields_ignored:
  "k \<in> ignoreFields hook \<Longrightarrow> copyFields hook kvs data k = data k"
  by (induction kvs arbitrary: data) auto

lemma copyFields_absent:
  "k \<notin> fst ` set kvs \<Longrightarrow> copyFields hook kvs data k = data k"
  by (induction kvs arbitrary: data) auto

text \<open>
  The entries of a Go map have distinct keys; then the value stored for a key that is not
  ignored is the entry's value, through the filter of that key if there is one.
\<close>

lemma copyFields_present:
  "distinct (map fst kvs) \<Longrightarrow> (k, v) \<in> set kvs \<Longrightarrow> k \<notin> ignoreFields hook \<Longrightarrow>
   copyFields hook kvs data k = Some (case filters hook k of Some fn \<Rightarrow> fn v | None \<Rightarrow> v)"
proof (induction kvs arbitrary: data)
  case Nil
  then show ?case by simp
next
  case (Cons p kvs)
  obtain k' v' where p: "p = (k', v')" by (cases p)
  show ?case
  proof (cases "(k, v) = p")
    case True
    with Cons.prems p have "k \<notin> fst ` set kvs" by auto
    with True p Cons.prems(3) show ?thesis
      by (auto simp: copyFields_absent)
  next
    case False
    with Cons.prems p have "(k, v) \<in> set kvs" "distinct (map fst kvs)" by auto
    with Cons.IH Cons.prems(3) p show ?thesis by simp
  qed
qed

lemma copyFields_cong:
  "ignoreFields h' = ignoreFields h \<Longrightarrow> filters h' = filters h \<Longrightarrow>
   copyFields h' kvs data = copyFields h kvs data"
  by (induction kvs arbitrary: data) auto

subsection \<open>Stamping\<close>

lemma stamped_level:
  "Fire_stamped hook entry ''level'' = Some (VString (Level_String (Level entry)))"
  by (simp add: Fire_stamped_def setMessage_def setLevelString_def split: option.splits)

lemma stamped_other:
  "k \<noteq> ''level'' \<Longrightarrow> k \<noteq> messageField hook \<Longrightarrow>
   Fire_stamped hook entry k = copyFields hook (Data entry) Map.empty k"
  by (simp add: Fire_stamped_def setMessage_def setLevelString_def split: option.splits)

lemma stamped_message_copied:
  "messageField hook \<noteq> ''level'' \<Longrightarrow>
   copyFields hook (Data entry) Map.empty (messageField hook) = Some x \<Longrightarrow>
   Fire_stamped hook entry (messageField hook) = Some x"
  by (simp add: Fire_stamped_def setMessage_def setLevelString_def split: option.splits)

lemma stamped_message_derived:
  "messageField hook \<noteq> ''level'' \<Longrightarrow>
   copyFields hook (Data entry) Map.empty (messageField hook) = None \<Longrightarrow>
   Fire_stamped hook entry (messageField hook) =
     Some (case filters hook (messageField hook) of
             Some fn \<Rightarrow> fn (VString (Message entry))
           | None \<Rightarrow> VString (Message entry))"
  by (simp add: Fire_stamped_def setMessage_def setLevelString_def split: option.splits)

subsection \<open>Customizers and tag resolution\<close>

lemma runCustomizers_append:
  "runCustomizers (fs @ gs) e d =
     (case runCustomizers fs e d of (e', d') \<Rightarrow> runCustomizers gs e' d')"
  by (induction fs arbitrary: e d) (auto split: prod.splits)

lemma runCustomizers_keeps:
  "\<forall>fn\<in>set fs. \<forall>e d. snd (fn e d) k = d k \<Longrightarrow> snd (runCustomizers fs e d) k = d k"
proof (induction fs arbitrary: e d)
  case Nil
  then show ?case by simp
next
  case (Cons f fs)
  obtain e' d' where f: "f e d = (e', d')" by (cases "f e d")
  from Cons.prems have "snd (f e d) k = d k" by simp
  with f have "d' k = d k" by simp
  moreover from Cons have "snd (runCustomizers fs e' d') k = d' k" by simp
  ultimately show ?case using f by simp
qed

lemma getTagAndDel_other:
  "k \<noteq> TagField \<Longrightarrow> snd (getTagAndDel hook e d) k = d k"
  by (simp add: getTagAndDel_def split: option.splits val.splits)

lemma format_address_example: "format_address ''localhost'' 24224 = ''localhost:24224''"
  by (simp add: format_address_def digit_def)

lemma New_example:
  "New open_transport ''localhost'' 24224 =
     Inr (plain_hook\<lparr>Fluent := Some \<lparr>Address = ''localhost:24224''\<rparr>,
                     conf := (conf plain_hook)\<lparr>DisableConnectionPool := False\<rparr>\<rparr>)"
  by (simp add: New_def NewWithConfig_def plain_hook_def open_transport_def
      format_address_example)

lemma NewWithConfig_succeeds:
  "DisableConnectionPool c \<or>
     Connect tr \<lparr>Address = format_address (Host c) (Port c)\<rparr> = None \<Longrightarrow>
   \<exists>hook. NewWithConfig tr c = Inr hook"
  by (auto simp: NewWithConfig_def Let_def)

lemma runCustomizers_entry:
  "\<forall>fn\<in>set fs. \<forall>e d. fst (fn e d) = e \<Longrightarrow> fst (runCustomizers fs e d) = e"
proof (induction fs arbitrary: e d)
  case Nil
  then show ?case by simp
next
  case (Cons f fs)
  obtain e' d' where f: "f e d = (e', d')" by (cases "f e d")
  from Cons.prems have "fst (f e d) = e" by simp
  with f have "e' = e" by simp
  moreover from Cons have "fst (runCustomizers fs e' d') = e'" by simp
  ultimately show ?case using f by simp
qed

text \<open>
  A field that no customizer changes reaches the resolved record as it was stamped,
  unless it is the tag field and is taken as the tag.
\<close>

lemma resolved_field:
  assumes keeps: "\<forall>fn\<in>set (customizers hook). \<forall>e d. snd (fn e d) k = d k"
    and st: "Fire_stamped hook entry k = Some x"
  shows "snd (Fire_resolved hook entry) k =
           (if k = TagField \<and> tag hook = None \<and> (\<exists>s. x = VString s) then None else Some x)"
    and "k = TagField \<Longrightarrow> tag hook = None \<Longrightarrow> x = VString s \<Longrightarrow>
           fst (Fire_resolved hook entry) = s"
proof -
  obtain e' d' where c: "Fire_customized hook entry = (e', d')"
    by (cases "Fire_customized hook entry")
  from keeps have "snd (Fire_customized hook entry) k = Fire_stamped hook entry k"
    unfolding Fire_customized_def by (rule runCustomizers_keeps)
  with c st have d: "d' k = Some x" by simp
  from c have r: "Fire_resolved hook entry = getTagAndDel hook e' d'"
    by (simp add: Fire_resolved_def)
  show "snd (Fire_resolved hook entry) k =
           (if k = TagField \<and> tag hook = None \<and> (\<exists>s. x = VString s) then None else Some x)"
  proof (cases "k = TagField")
    case True
    with d show ?thesis
      by (auto simp: r getTagAndDel_def split: option.splits val.splits)
  next
    case False
    with d show ?thesis by (simp add: r getTagAndDel_other)
  qed
  show "k = TagField \<Longrightarrow> tag hook = None \<Longrightarrow> x = VString s \<Longrightarrow>
           fst (Fire_resolved hook entry) = s"
    using d by (simp add: r getTagAndDel_def)
qed

lemma stamped_message_field:
  "Fire_stamped hook entry (messageField hook) =
     (if messageField hook = ''level'' then Some (VString (Level_String (Level entry)))
      else case copyFields hook (Data entry) Map.empty (messageField hook) of
             Some x \<Rightarrow> Some x
           | None \<Rightarrow> Some (filtered hook (messageField hook) (VString (Message entry))))"
  by (simp add: Fire_stamped_def setMessage_def setLevelString_def split: option.splits)

lemma level_not_tag: "''level'' \<noteq> TagField"
  by (simp add: TagField_def)

subsection \<open>What Fire hands to the transport\<close>

text \<open>
  With a persistent client, \<^verbatim>\<open>Fire\<close> sends the resolved tag and the converted record on
  it and returns the error of the send; nothing is disconnected. Without one, a failed
  connection is returned before anything is built, and after a successful one the
  deferred disconnect runs.
\<close>

lemma Fire_persistent:
  "Fluent hook = Some fd \<Longrightarrow>
   Fire tr hook entry =
     \<lparr>returned = SendMessage tr fd (fst (Fire_resolved hook entry))
                   (ConvertToValue tr (snd (Fire_resolved hook entry)) TagName),
      sent = Some (fd, fst (Fire_resolved hook entry),
                   ConvertToValue tr (snd (Fire_resolved hook entry)) TagName),
      disconnected = False\<rparr>"
  by (simp add: Fire_def Let_def split: prod.splits)

lemma Fire_connect_failed:
  "Fluent hook = None \<Longrightarrow>
   Connect tr \<lparr>Address = format_address (Host (conf hook)) (Port (conf hook))\<rparr> = Some err \<Longrightarrow>
   Fire tr hook entry = \<lparr>returned = Some err, sent = None, disconnected = False\<rparr>"
  by (simp add: Fire_def Let_def)

lemma Fire_per_call:
  "Fluent hook = None \<Longrightarrow>
   Connect tr \<lparr>Address = format_address (Host (conf hook)) (Port (conf hook))\<rparr> = None \<Longrightarrow>
   sent (Fire tr hook entry) =
     Some (\<lparr>Address = format_address (Host (conf hook)) (Port (conf hook))\<rparr>,
           fst (Fire_resolved hook entry),
           ConvertToValue tr (snd (Fire_resolved hook entry)) TagName) \<and>
   disconnected (Fire tr hook entry)"
  by (simp add: Fire_def Let_def split: prod.splits)

lemmas example_defs = plain_hook_def boom_entry_def SetTag_def AddFilter_def AddIgnore_def
  AddCustomizer_def Fire_resolved_def Fire_customized_def Fire_stamped_def setMessage_def
  setLevelString_def getTagAndDel_def TagField_def MessageField_def

section \<open>The claims\<close>

subsection \<open>C1: the tag field in the resolved record\<close>

text \<open>
  With the static tag \<^verbatim>\<open>"fixed.tag"\<close> set, the entry's \<^verbatim>\<open>"tag"\<close> field is still a
  key of the record that \<^verbatim>\<open>getTagAndDel\<close> leaves behind: the record can contain the
  reserved name.
\<close>

theorem tag_key_kept_counterexample:
  "snd (Fire_resolved (SetTag plain_hook ''fixed.tag'') boom_entry) TagField =
     Some (VString ''svc.errors'')"
  by (simp add: example_defs)

text \<open>
  Claim C1, as the code has it. When no static tag is configured and the record, after
  the customizers, holds no value other than a string under \<^verbatim>\<open>"tag"\<close>, the resolved
  record has no \<^verbatim>\<open>"tag"\<close> key. When a static tag is configured, or the value under
  \<^verbatim>\<open>"tag"\<close> is not a string, the resolved record holds under \<^verbatim>\<open>"tag"\<close> exactly what
  the record held after the customizers.
\<close>

theorem tag_key_after_resolution:
  "(tag hook = None \<and>
      (\<forall>v. snd (Fire_customized hook entry) TagField = Some v \<longrightarrow> (\<exists>s. v = VString s))
    \<longrightarrow> snd (Fire_resolved hook entry) TagField = None) \<and>
   (tag hook \<noteq> None \<or>
      (\<exists>v. snd (Fire_customized hook entry) TagField = Some v \<and> (\<forall>s. v \<noteq> VString s))
    \<longrightarrow> snd (Fire_resolved hook entry) TagField = snd (Fire_customized hook entry) TagField)"
  by (auto simp: Fire_resolved_def getTagAndDel_def
      split: prod.splits option.splits val.splits)

theorem tag_key_after_resolution_witness:
  "tag plain_hook = None \<and>
   snd (Fire_customized plain_hook boom_entry) TagField = Some (VString ''svc.errors'') \<and>
   snd (Fire_resolved plain_hook boom_entry) TagField = None \<and>
   tag plain_hook = None \<and>
   snd (Fire_customized plain_hook numbered_entry) TagField = Some (VInt 7) \<and>
   snd (Fire_resolved plain_hook numbered_entry) TagField = Some (VInt 7) \<and>
   tag (SetTag plain_hook ''fixed.tag'') = Some ''fixed.tag'' \<and>
   snd (Fire_resolved (SetTag plain_hook ''fixed.tag'') boom_entry) TagField =
     snd (Fire_customized (SetTag plain_hook ''fixed.tag'') boom_entry) TagField"
proof -
  have h1: "tag plain_hook = None"
    by (simp add: plain_hook_def)
  have h2: "snd (Fire_customized plain_hook boom_entry) TagField = Some (VString ''svc.errors'')"
    by (simp add: example_defs)
  have h3: "tag (SetTag plain_hook ''fixed.tag'') = Some ''fixed.tag''"
    by (simp add: SetTag_def)
  have h4: "snd (Fire_customized plain_hook numbered_entry) TagField = Some (VInt 7)"
    by (simp add: example_defs numbered_entry_def)
  from h1 h2 h3 h4 tag_key_after_resolution [of plain_hook boom_entry]
    tag_key_after_resolution [of plain_hook numbered_entry]
    tag_key_after_resolution [of "SetTag plain_hook ''fixed.tag''" boom_entry]
  show ?thesis by simp
qed

subsection \<open>C2: the message field\<close>

text \<open>
  The entry supplies \<^verbatim>\<open>"message": "explicit"\<close> and the filter \<open>shout\<close> is registered
  for \<^verbatim>\<open>"message"\<close>: the record's message is the filtered value, since the copy pass
  applies the filter of every field it copies.
\<close>

theorem supplied_message_filtered_counterexample:
  "(''message'', VString ''explicit'') \<in> set (Data explicit_entry) \<and>
   messageField (AddFilter plain_hook ''message'' shout) = ''message'' \<and>
   filters (AddFilter plain_hook ''message'' shout) ''message'' = Some shout \<and>
   snd (Fire_resolved (AddFilter plain_hook ''message'' shout) explicit_entry) ''message'' =
     Some (VString ''explicit!'')"
  by (simp add: example_defs explicit_entry_def shout_def)

text \<open>
  Claim C2, as the code has it. Let the entry's fields have distinct keys, and let the
  entry supply a value \<open>v\<close> under the configured message field name, that name not
  being ignored. Then, when no customizer changes what is stored under that name, the
  output record's value for the message field is the filter of that name applied to
  \<open>v\<close> when one is registered, and \<open>v\<close> itself when none is: the copy pass applies the
  filter to the supplied value, and \<^verbatim>\<open>setMessage\<close> never changes a record that already
  has the message field. The same value is in the record before the customizers run,
  whatever they are. Two message field names are special. Under \<^verbatim>\<open>"level"\<close> the
  record holds the stamped severity. Under \<^verbatim>\<open>"tag"\<close>, with no static tag and a string
  as the (filtered) value, that string is the resolved tag and the key is removed. When
  the entry supplies no such field, or the name is ignored, all of this holds of
  \<^verbatim>\<open>entry.Message\<close> in place of \<open>v\<close>: the derived message goes through the filter too.
\<close>

theorem message_field_value:
  assumes "distinct (map fst (Data entry))"
  shows
    "((messageField hook, v) \<in> set (Data entry) \<and> messageField hook \<notin> ignoreFields hook \<longrightarrow>
        Fire_stamped hook entry (messageField hook) =
          (if messageField hook = ''level'' then Some (VString (Level_String (Level entry)))
           else Some (filtered hook (messageField hook) v)) \<and>
        ((\<forall>fn\<in>set (customizers hook).
            \<forall>e d. snd (fn e d) (messageField hook) = d (messageField hook)) \<longrightarrow>
           snd (Fire_resolved hook entry) (messageField hook) =
             (if messageField hook = ''level''
              then Some (VString (Level_String (Level entry)))
              else if messageField hook = TagField \<and> tag hook = None \<and>
                      (\<exists>s. filtered hook (messageField hook) v = VString s)
              then None
              else Some (filtered hook (messageField hook) v)) \<and>
           (messageField hook = TagField \<and> tag hook = None \<longrightarrow>
              (\<forall>s. filtered hook (messageField hook) v = VString s \<longrightarrow>
                   fst (Fire_resolved hook entry) = s)))) \<and>
     (messageField hook \<notin> fst ` set (Data entry) \<or> messageField hook \<in> ignoreFields hook \<longrightarrow>
        Fire_stamped hook entry (messageField hook) =
          (if messageField hook = ''level'' then Some (VString (Level_String (Level entry)))
           else Some (filtered hook (messageField hook) (VString (Message entry)))) \<and>
        ((\<forall>fn\<in>set (customizers hook).
            \<forall>e d. snd (fn e d) (messageField hook) = d (messageField hook)) \<longrightarrow>
           snd (Fire_resolved hook entry) (messageField hook) =
             (if messageField hook = ''level''
              then Some (VString (Level_String (Level entry)))
              else if messageField hook = TagField \<and> tag hook = None \<and>
                      (\<exists>s. filtered hook (messageField hook) (VString (Message entry)) =
                             VString s)
              then None
              else Some (filtered hook (messageField hook) (VString (Message entry)))) \<and>
           (messageField hook = TagField \<and> tag hook = None \<longrightarrow>
              (\<forall>s. filtered hook (messageField hook) (VString (Message entry)) = VString s \<longrightarrow>
                   fst (Fire_resolved hook entry) = s)))) \<and>
     (\<forall>data x. data (messageField hook) = Some x \<longrightarrow> setMessage hook entry data = data)"
proof -
  let ?mf = "messageField hook"
  let ?L = "VString (Level_String (Level entry))"
  have carried: "snd (Fire_resolved hook entry) ?mf =
       (if ?mf = ''level'' then Some ?L
        else if ?mf = TagField \<and> tag hook = None \<and> (\<exists>s. y = VString s) then None
        else Some y) \<and>
       (?mf = TagField \<and> tag hook = None \<longrightarrow>
          (\<forall>s. y = VString s \<longrightarrow> fst (Fire_resolved hook entry) = s))"
    if st: "Fire_stamped hook entry ?mf = (if ?mf = ''level'' then Some ?L else Some y)"
      and keeps: "\<forall>fn\<in>set (customizers hook). \<forall>e d. snd (fn e d) ?mf = d ?mf"
    for y
  proof (cases "?mf = ''level''")
    case True
    with st have "Fire_stamped hook entry ?mf = Some ?L" by simp
    from resolved_field(1) [OF keeps this] True level_not_tag show ?thesis by auto
  next
    case False
    with st have s: "Fire_stamped hook entry ?mf = Some y" by simp
    from resolved_field(1) [OF keeps s] resolved_field(2) [OF keeps s] False
    show ?thesis by auto
  qed
  have supplied: "Fire_stamped hook entry ?mf =
        (if ?mf = ''level'' then Some ?L else Some (filtered hook ?mf v))"
    if "(?mf, v) \<in> set (Data entry) \<and> ?mf \<notin> ignoreFields hook"
  proof -
    from that assms
    have "copyFields hook (Data entry) Map.empty ?mf = Some (filtered hook ?mf v)"
      by (simp add: copyFields_present)
    then show ?thesis by (simp add: stamped_message_field)
  qed
  have derived: "Fire_stamped hook entry ?mf =
        (if ?mf = ''level'' then Some ?L
         else Some (filtered hook ?mf (VString (Message entry))))"
    if "?mf \<notin> fst ` set (Data entry) \<or> ?mf \<in> ignoreFields hook"
  proof -
    from that have "copyFields hook (Data entry) Map.empty ?mf = None"
      by (auto simp: copyFields_absent copyFields_ignored)
    then show ?thesis by (simp add: stamped_message_field)
  qed
  have untouched: "\<forall>data x. data ?mf = Some x \<longrightarrow> setMessage hook entry data = data"
    by (simp add: setMessage_def)
  from supplied derived untouched
    carried [of "filtered hook ?mf v"]
    carried [of "filtered hook ?mf (VString (Message entry))"]
  show ?thesis by blast
qed

theorem message_field_value_witness:
  "distinct (map fst (Data explicit_entry)) \<and>
   (''message'', VString ''explicit'') \<in> set (Data explicit_entry) \<and>
   ''message'' \<notin> ignoreFields (AddFilter plain_hook ''message'' shout) \<and>
   snd (Fire_resolved (AddFilter plain_hook ''message'' shout) explicit_entry) ''message'' =
     Some (VString ''explicit!'') \<and>
   ''message'' \<notin> fst ` set (Data boom_entry) \<and>
   snd (Fire_resolved (AddFilter plain_hook ''message'' shout) boom_entry) ''message'' =
     Some (VString ''boom!'') \<and>
   ''message'' \<in> ignoreFields (AddIgnore (AddFilter plain_hook ''message'' shout) ''message'') \<and>
   snd (Fire_resolved (AddIgnore (AddFilter plain_hook ''message'' shout) ''message'')
          explicit_entry) ''message'' = Some (VString ''boom!'') \<and>
   (''level'', VString ''fake'') \<in> set (Data user_entry) \<and>
   snd (Fire_resolved (SetMessageField plain_hook ''level'') user_entry) ''level'' =
     Some (VString ''error'') \<and>
   (''tag'', VString ''svc.errors'') \<in> set (Data boom_entry) \<and>
   snd (Fire_resolved (SetMessageField (AddFilter plain_hook ''tag'' shout) ''tag'') boom_entry)
     ''tag'' = None \<and>
   fst (Fire_resolved (SetMessageField (AddFilter plain_hook ''tag'' shout) ''tag'') boom_entry) =
     ''svc.errors!''"
proof -
  let ?h = "AddFilter plain_hook ''message'' shout"
  let ?i = "AddIgnore ?h ''message''"
  let ?l = "SetMessageField plain_hook ''level''"
  let ?t = "SetMessageField (AddFilter plain_hook ''tag'' shout) ''tag''"
  have h1: "distinct (map fst (Data explicit_entry))" "distinct (map fst (Data boom_entry))"
    "distinct (map fst (Data user_entry))"
    by (simp_all add: explicit_entry_def boom_entry_def user_entry_def)
  have m: "messageField ?h = ''message''" "messageField ?i = ''message''"
    "messageField ?l = ''level''" "messageField ?t = ''tag''"
    "filters ?h ''message'' = Some shout" "filters ?i ''message'' = Some shout"
    "filters ?t ''tag'' = Some shout"
    "''message'' \<notin> ignoreFields ?h" "''message'' \<in> ignoreFields ?i"
    "''level'' \<notin> ignoreFields ?l" "''tag'' \<notin> ignoreFields ?t"
    "customizers ?h = []" "customizers ?i = []" "customizers ?l = []" "customizers ?t = []"
    "tag ?t = None"
    by (simp_all add: example_defs SetMessageField_def)
  have d: "(''message'', VString ''explicit'') \<in> set (Data explicit_entry)"
    "''message'' \<notin> fst ` set (Data boom_entry)"
    "(''level'', VString ''fake'') \<in> set (Data user_entry)"
    "(''tag'', VString ''svc.errors'') \<in> set (Data boom_entry)"
    by (simp_all add: explicit_entry_def boom_entry_def user_entry_def)
  have s: "shout (VString ''explicit'') = VString ''explicit!''"
    "shout (VString (Message boom_entry)) = VString ''boom!''"
    "shout (VString (Message explicit_entry)) = VString ''boom!''"
    "shout (VString ''svc.errors'') = VString ''svc.errors!''"
    "Level_String (Level user_entry) = ''error''"
    by (simp_all add: shout_def explicit_entry_def boom_entry_def user_entry_def
        Level_String_Error)
  from message_field_value [OF h1(1), of ?h "VString ''explicit''"] m d s
  have 1: "snd (Fire_resolved ?h explicit_entry) ''message'' = Some (VString ''explicit!'')"
    by (simp add: TagField_def)
  from message_field_value [OF h1(2), of ?h VNil] m d s
  have 2: "snd (Fire_resolved ?h boom_entry) ''message'' = Some (VString ''boom!'')"
    by (simp add: TagField_def)
  from message_field_value [OF h1(1), of ?i VNil] m d s
  have 3: "snd (Fire_resolved ?i explicit_entry) ''message'' = Some (VString ''boom!'')"
    by (simp add: TagField_def)
  from message_field_value [OF h1(3), of ?l "VString ''fake''"] m d s
  have 4: "snd (Fire_resolved ?l user_entry) ''level'' = Some (VString ''error'')"
    by (simp add: TagField_def)
  from message_field_value [OF h1(2), of ?t "VString ''svc.errors''"] m d s
  have 5: "snd (Fire_resolved ?t boom_entry) ''tag'' = None \<and>
      fst (Fire_resolved ?t boom_entry) = ''svc.errors!''"
    by (simp add: TagField_def)
  from 1 2 3 4 5 h1 m d show ?thesis by simp
qed

subsection \<open>C3: ignored fields\<close>

text \<open>
  With \<^verbatim>\<open>"level"\<close> in the ignore set, the record still has a \<^verbatim>\<open>"level"\<close> key:
  \<^verbatim>\<open>setLevelString\<close> stores it whatever the ignore set holds.
\<close>

theorem ignored_level_stamped_counterexample:
  "''level'' \<in> ignoreFields (AddIgnore plain_hook ''level'') \<and>
   Fire_stamped (AddIgnore plain_hook ''level'') boom_entry ''level'' =
     Some (VString ''error'')"
  by (simp add: example_defs Level_String_Error)

text \<open>
  Claim C3, as the code has it. For a name in the ignore set, the copy pass stores
  nothing under it, whether or not a filter is registered for it. If the name is neither
  \<^verbatim>\<open>"level"\<close> nor the message field name, it is no key of the record before the
  customizers run. Under \<^verbatim>\<open>"level"\<close> the record holds the stamped severity, and under
  the message field name (when that is not \<^verbatim>\<open>"level"\<close>) the message derived from
  \<^verbatim>\<open>entry.Message\<close>: the key is there, the entry's own value for it is not.
\<close>

theorem ignored_field_absent:
  assumes "k \<in> ignoreFields hook"
  shows
    "copyFields hook (Data entry) Map.empty k = None \<and>
     (k \<noteq> ''level'' \<and> k \<noteq> messageField hook \<longrightarrow> Fire_stamped hook entry k = None) \<and>
     (k = ''level'' \<longrightarrow>
        Fire_stamped hook entry k = Some (VString (Level_String (Level entry)))) \<and>
     (k = messageField hook \<and> k \<noteq> ''level'' \<longrightarrow>
        Fire_stamped hook entry k =
          Some (case filters hook k of
                  Some fn \<Rightarrow> fn (VString (Message entry))
                | None \<Rightarrow> VString (Message entry)))"
proof -
  from assms have c: "copyFields hook (Data entry) Map.empty k = None"
    by (simp add: copyFields_ignored)
  then have "k \<noteq> ''level'' \<and> k \<noteq> messageField hook \<longrightarrow> Fire_stamped hook entry k = None"
    by (simp add: stamped_other)
  moreover have "k = ''level'' \<longrightarrow>
      Fire_stamped hook entry k = Some (VString (Level_String (Level entry)))"
    by (simp add: stamped_level)
  moreover from c have "k = messageField hook \<and> k \<noteq> ''level'' \<longrightarrow>
      Fire_stamped hook entry k =
        Some (case filters hook k of
                Some fn \<Rightarrow> fn (VString (Message entry))
              | None \<Rightarrow> VString (Message entry))"
    by (auto simp: stamped_message_derived)
  ultimately show ?thesis using c by blast
qed

theorem ignored_field_absent_witness:
  "''user'' \<in> ignoreFields (AddFilter (AddIgnore plain_hook ''user'') ''user'' shout) \<and>
   filters (AddFilter (AddIgnore plain_hook ''user'') ''user'' shout) ''user'' = Some shout \<and>
   (''user'', VInt 42) \<in> set (Data user_entry) \<and>
   Fire_stamped (AddFilter (AddIgnore plain_hook ''user'') ''user'' shout) user_entry ''user''
     = None \<and>
   ''level'' \<in> ignoreFields (AddIgnore plain_hook ''level'') \<and>
   Fire_stamped (AddIgnore plain_hook ''level'') user_entry ''level'' =
     Some (VString ''error'') \<and>
   ''message'' \<in> ignoreFields (AddIgnore plain_hook ''message'') \<and>
   Fire_stamped (AddIgnore plain_hook ''message'') user_entry ''message'' =
     Some (VString ''boom'')"
proof -
  let ?u = "AddFilter (AddIgnore plain_hook ''user'') ''user'' shout"
  let ?l = "AddIgnore plain_hook ''level''"
  let ?m = "AddIgnore plain_hook ''message''"
  have h: "''user'' \<in> ignoreFields ?u" "''level'' \<in> ignoreFields ?l"
    "''message'' \<in> ignoreFields ?m"
    by (simp_all add: example_defs)
  have m: "messageField ?u = ''message''" "messageField ?m = ''message''"
    "filters ?u ''user'' = Some shout" "filters ?m ''message'' = None"
    "Level_String (Level user_entry) = ''error''" "Message user_entry = ''boom''"
    "(''user'', VInt 42) \<in> set (Data user_entry)"
    by (simp_all add: example_defs user_entry_def Level_String_Error)
  from ignored_field_absent [OF h(1), of user_entry]
    ignored_field_absent [OF h(2), of user_entry]
    ignored_field_absent [OF h(3), of user_entry] h m
  show ?thesis by simp
qed

subsection \<open>C4: the level field\<close>

text \<open>
  A customizer that stores \<^verbatim>\<open>"spoofed"\<close> under \<^verbatim>\<open>"level"\<close> runs after the stamping, so
  the record that is sent holds \<^verbatim>\<open>"spoofed"\<close> for an entry of severity \<^verbatim>\<open>error\<close>.
\<close>

theorem customizer_spoofs_level_counterexample:
  "Level_String (Level boom_entry) = ''error'' \<and>
   snd (Fire_resolved (AddCustomizer plain_hook spoof_level) boom_entry) ''level'' =
     Some (VString ''spoofed'')"
  by (simp add: example_defs spoof_level_def Level_String_Error)

text \<open>
  Claim C4, as the code has it. Before the customizers run, the record's \<^verbatim>\<open>"level"\<close>
  is the string form of the entry's severity, whatever the entry's fields, the ignore set
  and the filters are: the stamped value replaces a copied one. The record that is sent
  still holds it when no customizer changes what is stored under \<^verbatim>\<open>"level"\<close>.
\<close>

theorem level_is_severity:
  "Fire_stamped hook entry ''level'' = Some (VString (Level_String (Level entry))) \<and>
   ((\<forall>fn\<in>set (customizers hook). \<forall>e d. snd (fn e d) ''level'' = d ''level'') \<longrightarrow>
      snd (Fire_resolved hook entry) ''level'' = Some (VString (Level_String (Level entry))))"
proof (intro conjI impI)
  show s: "Fire_stamped hook entry ''level'' = Some (VString (Level_String (Level entry)))"
    by (rule stamped_level)
  assume "\<forall>fn\<in>set (customizers hook). \<forall>e d. snd (fn e d) ''level'' = d ''level''"
  then have "snd (Fire_customized hook entry) ''level'' = Fire_stamped hook entry ''level''"
    unfolding Fire_customized_def by (rule runCustomizers_keeps)
  moreover have "snd (Fire_resolved hook entry) ''level'' =
      snd (Fire_customized hook entry) ''level''"
    by (simp add: Fire_resolved_def getTagAndDel_other TagField_def split: prod.splits)
  ultimately show "snd (Fire_resolved hook entry) ''level'' =
      Some (VString (Level_String (Level entry)))"
    using s by simp
qed

theorem level_is_severity_witness:
  "(''level'', VString ''fake'') \<in> set (Data user_entry) \<and>
   Fire_stamped plain_hook user_entry ''level'' = Some (VString ''error'') \<and>
   snd (Fire_resolved (AddCustomizer plain_hook (route_to ''svc'')) user_entry) ''level'' =
     Some (VString ''error'')"
proof -
  let ?h = "AddCustomizer plain_hook (route_to ''svc'')"
  have h: "\<forall>fn\<in>set (customizers ?h). \<forall>e d. snd (fn e d) ''level'' = d ''level''"
    by (simp add: example_defs route_to_def)
  have m: "Level_String (Level user_entry) = ''error''"
    "(''level'', VString ''fake'') \<in> set (Data user_entry)"
    by (simp_all add: user_entry_def Level_String_Error)
  from level_is_severity [of plain_hook user_entry] level_is_severity [of ?h user_entry] h m
  show ?thesis by simp
qed

subsection \<open>C5: a static tag\<close>

text \<open>
  Claim C5. When the hook has a static tag, \<^verbatim>\<open>getTagAndDel\<close> returns it and leaves the
  record as it was, for every entry and every record; so \<^verbatim>\<open>Fire\<close> resolves to the static
  tag and to the record the customizers left, a \<^verbatim>\<open>"tag"\<close> field of it included.
\<close>

theorem static_tag_wins:
  "tag hook = Some t \<Longrightarrow>
     getTagAndDel hook e d = (t, d) \<and>
     Fire_resolved hook entry = (t, snd (Fire_customized hook entry))"
  by (simp add: getTagAndDel_def Fire_resolved_def split: prod.splits)

theorem static_tag_wins_witness:
  "tag (SetTag plain_hook ''fixed.tag'') = Some ''fixed.tag'' \<and>
   fst (Fire_resolved (SetTag plain_hook ''fixed.tag'') boom_entry) = ''fixed.tag'' \<and>
   snd (Fire_resolved (SetTag plain_hook ''fixed.tag'') boom_entry) ''tag'' =
     Some (VString ''svc.errors'') \<and>
   snd (Fire_resolved (SetTag plain_hook ''fixed.tag'') boom_entry) ''user'' = Some (VInt 42)"
proof -
  have h: "tag (SetTag plain_hook ''fixed.tag'') = Some ''fixed.tag''"
    by (simp add: SetTag_def)
  have "snd (Fire_customized (SetTag plain_hook ''fixed.tag'') boom_entry) ''tag'' =
     Some (VString ''svc.errors'')"
    "snd (Fire_customized (SetTag plain_hook ''fixed.tag'') boom_entry) ''user'' =
     Some (VInt 42)"
    by (simp_all add: example_defs)
  with h static_tag_wins [OF h, of boom_entry Map.empty boom_entry] show ?thesis by simp
qed

subsection \<open>C6: a string under the tag field\<close>

text \<open>
  Claim C6. When no static tag is configured and the record holds a string under
  \<^verbatim>\<open>"tag"\<close>, \<^verbatim>\<open>getTagAndDel\<close> returns that string and the record without the
  \<^verbatim>\<open>"tag"\<close> key; in \<^verbatim>\<open>Fire\<close>, where the record is the one the customizers left, the
  resolved tag is the string, \<^verbatim>\<open>"tag"\<close> is no key of the resolved record, and every
  other key holds what it held.
\<close>

theorem string_tag_field_extracted:
  "tag hook = None \<Longrightarrow>
   (d TagField = Some (VString s) \<longrightarrow>
      getTagAndDel hook e d = (s, d(TagField := None))) \<and>
   (snd (Fire_customized hook entry) TagField = Some (VString s) \<longrightarrow>
      fst (Fire_resolved hook entry) = s \<and>
      snd (Fire_resolved hook entry) TagField = None \<and>
      (\<forall>k. k \<noteq> TagField \<longrightarrow>
         snd (Fire_resolved hook entry) k = snd (Fire_customized hook entry) k))"
  by (auto simp: getTagAndDel_def Fire_resolved_def split: prod.splits)

theorem string_tag_field_extracted_witness:
  "tag plain_hook = None \<and>
   snd (Fire_customized plain_hook boom_entry) TagField = Some (VString ''svc.errors'') \<and>
   fst (Fire_resolved plain_hook boom_entry) = ''svc.errors'' \<and>
   snd (Fire_resolved plain_hook boom_entry) TagField = None \<and>
   snd (Fire_resolved plain_hook boom_entry) ''user'' = Some (VInt 42) \<and>
   snd (Fire_resolved plain_hook boom_entry) ''level'' = Some (VString ''error'') \<and>
   snd (Fire_resolved plain_hook boom_entry) ''message'' = Some (VString ''boom'')"
proof -
  have h1: "tag plain_hook = None"
    by (simp add: plain_hook_def)
  have h2: "snd (Fire_customized plain_hook boom_entry) TagField = Some (VString ''svc.errors'')"
    by (simp add: example_defs)
  have h3: "snd (Fire_customized plain_hook boom_entry) ''user'' = Some (VInt 42)"
    "snd (Fire_customized plain_hook boom_entry) ''level'' = Some (VString ''error'')"
    "snd (Fire_customized plain_hook boom_entry) ''message'' = Some (VString ''boom'')"
    by (simp_all add: example_defs Level_String_Error)
  from h1 h2 h3
    string_tag_field_extracted [OF h1, of Map.empty "''svc.errors''" boom_entry boom_entry]
  show ?thesis by (simp add: TagField_def)
qed

subsection \<open>C7: no usable tag field\<close>

text \<open>
  Claim C7. When no static tag is configured and the record has no \<^verbatim>\<open>"tag"\<close> key, or
  holds under it a value that is not a string, \<^verbatim>\<open>getTagAndDel\<close> returns
  \<^verbatim>\<open>entry.Message\<close> and the record as it was, the value under \<^verbatim>\<open>"tag"\<close> included; its
  result is a tag and a record, it has no error to signal. In \<^verbatim>\<open>Fire\<close> the entry and
  the record are those the customizers left, and the entry is the one \<^verbatim>\<open>Fire\<close> was
  given when no customizer writes to it.
\<close>

theorem fallback_to_message:
  "tag hook = None \<Longrightarrow>
   (d TagField = None \<or> (\<exists>v. d TagField = Some v \<and> (\<forall>s. v \<noteq> VString s)) \<longrightarrow>
      getTagAndDel hook e d = (Message e, d)) \<and>
   (snd (Fire_customized hook entry) TagField = None \<or>
      (\<exists>v. snd (Fire_customized hook entry) TagField = Some v \<and> (\<forall>s. v \<noteq> VString s)) \<longrightarrow>
      Fire_resolved hook entry =
        (Message (fst (Fire_customized hook entry)), snd (Fire_customized hook entry))) \<and>
   ((\<forall>fn\<in>set (customizers hook). \<forall>e d. fst (fn e d) = e) \<longrightarrow>
      fst (Fire_customized hook entry) = entry)"
  by (auto simp: getTagAndDel_def Fire_resolved_def Fire_customized_def runCustomizers_entry
      split: option.splits val.splits prod.splits)

theorem fallback_to_message_witness:
  "tag plain_hook = None \<and>
   getTagAndDel plain_hook boom_entry [''user'' \<mapsto> VInt 42] =
     (''boom'', [''user'' \<mapsto> VInt 42]) \<and>
   getTagAndDel plain_hook boom_entry [''tag'' \<mapsto> VInt 7] =
     (''boom'', [''tag'' \<mapsto> VInt 7]) \<and>
   snd (Fire_customized plain_hook numbered_entry) TagField = Some (VInt 7) \<and>
   fst (Fire_resolved plain_hook numbered_entry) = ''started'' \<and>
   snd (Fire_resolved plain_hook numbered_entry) TagField = Some (VInt 7) \<and>
   snd (Fire_customized plain_hook user_entry) TagField = None \<and>
   fst (Fire_resolved plain_hook user_entry) = ''boom''"
proof -
  have h1: "tag plain_hook = None" "customizers plain_hook = []"
    by (simp_all add: plain_hook_def)
  have h2: "[''user'' \<mapsto> VInt 42] TagField = None"
    by (simp add: TagField_def)
  have h3: "\<exists>v. [''tag'' \<mapsto> VInt 7] TagField = Some v \<and> (\<forall>s. v \<noteq> VString s)"
    by (simp add: TagField_def)
  have h4: "snd (Fire_customized plain_hook numbered_entry) TagField = Some (VInt 7)"
    "snd (Fire_customized plain_hook user_entry) TagField = None"
    by (simp_all add: example_defs numbered_entry_def user_entry_def)
  have m: "Message boom_entry = ''boom''" "Message numbered_entry = ''started''"
    "Message user_entry = ''boom''"
    by (simp_all add: boom_entry_def numbered_entry_def user_entry_def)
  from h1 h2 h3 h4 m
    fallback_to_message [of plain_hook "[''user'' \<mapsto> VInt 42]" boom_entry numbered_entry]
    fallback_to_message [of plain_hook "[''tag'' \<mapsto> VInt 7]" boom_entry user_entry]
  show ?thesis by simp
qed

subsection \<open>C8: the levels of a new hook\<close>

text \<open>
  Claim C8. A hook that \<^verbatim>\<open>NewWithConfig\<close> returns for a configuration with an empty
  level list has the levels panic, fatal, error, warn and info, and neither debug nor
  trace; for a configuration with a non-empty list, \<^verbatim>\<open>Levels\<close> returns that list.
\<close>

theorem levels_default:
  "NewWithConfig tr c = Inr hook \<Longrightarrow>
     (LogLevels c = [] \<longrightarrow>
        Levels hook = [PanicLevel, FatalLevel, ErrorLevel, WarnLevel, InfoLevel] \<and>
        set (Levels hook) = {PanicLevel, FatalLevel, ErrorLevel, WarnLevel, InfoLevel} \<and>
        DebugLevel \<notin> set (Levels hook) \<and> TraceLevel \<notin> set (Levels hook)) \<and>
     (LogLevels c \<noteq> [] \<longrightarrow> Levels hook = LogLevels c)"
  by (auto simp: NewWithConfig_def Levels_def defaultLevels_def Let_def
      PanicLevel_def FatalLevel_def ErrorLevel_def WarnLevel_def InfoLevel_def
      DebugLevel_def TraceLevel_def
      split: if_splits option.splits)

theorem levels_default_witness:
  "NewWithConfig open_transport ((conf plain_hook)\<lparr>DisableConnectionPool := False\<rparr>) =
     Inr (plain_hook\<lparr>Fluent := Some \<lparr>Address = ''localhost:24224''\<rparr>,
                     conf := (conf plain_hook)\<lparr>DisableConnectionPool := False\<rparr>\<rparr>) \<and>
   LogLevels ((conf plain_hook)\<lparr>DisableConnectionPool := False\<rparr>) = [] \<and>
   Levels (plain_hook\<lparr>Fluent := Some \<lparr>Address = ''localhost:24224''\<rparr>,
                      conf := (conf plain_hook)\<lparr>DisableConnectionPool := False\<rparr>\<rparr>) =
     [PanicLevel, FatalLevel, ErrorLevel, WarnLevel, InfoLevel] \<and>
   NewWithConfig open_transport ((conf plain_hook)\<lparr>LogLevels := [PanicLevel, ErrorLevel]\<rparr>) =
     Inr (plain_hook\<lparr>conf := (conf plain_hook)\<lparr>LogLevels := [PanicLevel, ErrorLevel]\<rparr>,
                     levels := [PanicLevel, ErrorLevel]\<rparr>) \<and>
   Levels (plain_hook\<lparr>conf := (conf plain_hook)\<lparr>LogLevels := [PanicLevel, ErrorLevel]\<rparr>,
                      levels := [PanicLevel, ErrorLevel]\<rparr>) = [PanicLevel, ErrorLevel]"
proof -
  let ?c1 = "(conf plain_hook)\<lparr>DisableConnectionPool := False\<rparr>"
  let ?h1 = "plain_hook\<lparr>Fluent := Some \<lparr>Address = ''localhost:24224''\<rparr>, conf := ?c1\<rparr>"
  let ?c2 = "(conf plain_hook)\<lparr>LogLevels := [PanicLevel, ErrorLevel]\<rparr>"
  let ?h2 = "plain_hook\<lparr>conf := ?c2, levels := [PanicLevel, ErrorLevel]\<rparr>"
  have n1: "NewWithConfig open_transport ?c1 = Inr ?h1"
    by (simp add: NewWithConfig_def plain_hook_def open_transport_def format_address_example)
  have n2: "NewWithConfig open_transport ?c2 = Inr ?h2"
    by (simp add: NewWithConfig_def plain_hook_def)
  have l: "LogLevels ?c1 = []" "LogLevels ?c2 \<noteq> []"
    by (simp_all add: plain_hook_def)
  from levels_default [OF n1] levels_default [OF n2] l n1 n2 show ?thesis by simp
qed

subsection \<open>C9: the customizers and the tag\<close>

text \<open>
  Claim C9. The customizers run in the order of their registration, on the stamped
  record, and the tag is resolved on what the last of them leaves. A hook with no
  customizer hands the entry and the stamped record (fields copied, level and message
  stamped) on as they are. A customizer added with \<^verbatim>\<open>AddCustomizer\<close> runs on what the
  customizers registered before it have left, and the tag is resolved on the entry and
  record it leaves; so when no static tag is set and it stores a string under
  \<^verbatim>\<open>"tag"\<close>, that string is the resolved tag.
\<close>

theorem customizers_in_order:
  "Fire_customized (AddCustomizer hook g) entry =
     (case Fire_customized hook entry of (e, d) \<Rightarrow> g e d) \<and>
   (customizers hook = [] \<longrightarrow> Fire_customized hook entry = (entry, Fire_stamped hook entry)) \<and>
   Fire_resolved (AddCustomizer hook g) entry =
     (case Fire_customized hook entry of
        (e, d) \<Rightarrow> (case g e d of (e', d') \<Rightarrow> getTagAndDel hook e' d')) \<and>
   (tag hook = None \<and> (\<forall>e d. snd (g e d) TagField = Some (VString s)) \<longrightarrow>
      fst (Fire_resolved (AddCustomizer hook g) entry) = s)"
proof -
  have st: "Fire_stamped (AddCustomizer hook g) entry = Fire_stamped hook entry"
    by (simp add: Fire_stamped_def AddCustomizer_def setMessage_def
        copyFields_cong [of "hook\<lparr>customizers := customizers hook @ [g]\<rparr>" hook]
        split: option.splits)
  have cu: "Fire_customized (AddCustomizer hook g) entry =
      (case Fire_customized hook entry of (e, d) \<Rightarrow> g e d)"
    by (simp add: Fire_customized_def st runCustomizers_append split: prod.splits)
      (simp add: AddCustomizer_def runCustomizers_append split: prod.splits)
  have gt: "getTagAndDel (AddCustomizer hook g) e d = getTagAndDel hook e d" for e d
    by (simp add: getTagAndDel_def AddCustomizer_def)
  have re: "Fire_resolved (AddCustomizer hook g) entry =
     (case Fire_customized hook entry of
        (e, d) \<Rightarrow> (case g e d of (e', d') \<Rightarrow> getTagAndDel hook e' d'))"
    by (simp add: Fire_resolved_def cu gt split: prod.splits)
  have em: "customizers hook = [] \<longrightarrow> Fire_customized hook entry = (entry, Fire_stamped hook entry)"
    by (simp add: Fire_customized_def)
  have tg: "tag hook = None \<and> (\<forall>e d. snd (g e d) TagField = Some (VString s)) \<longrightarrow>
      fst (Fire_resolved (AddCustomizer hook g) entry) = s"
  proof
    assume a: "tag hook = None \<and> (\<forall>e d. snd (g e d) TagField = Some (VString s))"
    obtain e d where f: "Fire_customized hook entry = (e, d)"
      by (cases "Fire_customized hook entry")
    obtain e' d' where g: "g e d = (e', d')" by (cases "g e d")
    from a have "snd (g e d) TagField = Some (VString s)" by blast
    with g have "d' TagField = Some (VString s)" by simp
    with a f g show "fst (Fire_resolved (AddCustomizer hook g) entry) = s"
      by (simp add: re getTagAndDel_def)
  qed
  from cu em re tg show ?thesis by blast
qed

theorem customizers_in_order_witness:
  "tag plain_hook = None \<and> customizers plain_hook = [] \<and>
   fst (Fire_resolved (AddCustomizer (AddCustomizer plain_hook (route_to ''a'')) (route_to ''b''))
          boom_entry) = ''b'' \<and>
   fst (Fire_resolved (AddCustomizer (AddCustomizer plain_hook (route_to ''b'')) (route_to ''a''))
          boom_entry) = ''a'' \<and>
   fst (Fire_resolved (AddCustomizer plain_hook (tag_from ''level'')) boom_entry) = ''error'' \<and>
   fst (Fire_resolved (AddCustomizer plain_hook (tag_from ''message'')) boom_entry) = ''boom''"
proof -
  have t: "tag (AddCustomizer plain_hook (route_to ''a'')) = None"
    "tag (AddCustomizer plain_hook (route_to ''b'')) = None"
    "tag plain_hook = None" "customizers plain_hook = []"
    by (simp_all add: AddCustomizer_def plain_hook_def)
  have r: "\<forall>e d. snd (route_to ''a'' e d) TagField = Some (VString ''a'')"
    "\<forall>e d. snd (route_to ''b'' e d) TagField = Some (VString ''b'')"
    by (simp_all add: route_to_def)
  have s: "Fire_stamped plain_hook boom_entry ''level'' = Some (VString ''error'')"
    "Fire_stamped plain_hook boom_entry ''message'' = Some (VString ''boom'')"
    by (simp_all add: example_defs Level_String_Error)
  from customizers_in_order
      [of "AddCustomizer plain_hook (route_to ''a'')" "route_to ''b''" boom_entry "''b''"] t r
  have 1: "fst (Fire_resolved (AddCustomizer (AddCustomizer plain_hook (route_to ''a''))
      (route_to ''b'')) boom_entry) = ''b''"
    by blast
  from customizers_in_order
      [of "AddCustomizer plain_hook (route_to ''b'')" "route_to ''a''" boom_entry "''a''"] t r
  have 2: "fst (Fire_resolved (AddCustomizer (AddCustomizer plain_hook (route_to ''b''))
      (route_to ''a'')) boom_entry) = ''a''"
    by blast
  from customizers_in_order [of plain_hook "tag_from ''level''" boom_entry "''x''"] t
  have "Fire_resolved (AddCustomizer plain_hook (tag_from ''level'')) boom_entry =
      (case tag_from ''level'' boom_entry (Fire_stamped plain_hook boom_entry) of
         (e', d') \<Rightarrow> getTagAndDel plain_hook e' d')"
    by simp
  with s t have 3: "fst (Fire_resolved (AddCustomizer plain_hook (tag_from ''level''))
      boom_entry) = ''error''"
    by (simp add: tag_from_def getTagAndDel_def)
  from customizers_in_order [of plain_hook "tag_from ''message''" boom_entry "''x''"] t
  have "Fire_resolved (AddCustomizer plain_hook (tag_from ''message'')) boom_entry =
      (case tag_from ''message'' boom_entry (Fire_stamped plain_hook boom_entry) of
         (e', d') \<Rightarrow> getTagAndDel plain_hook e' d')"
    by simp
  with s t have 4: "fst (Fire_resolved (AddCustomizer plain_hook (tag_from ''message''))
      boom_entry) = ''boom''"
    by (simp add: tag_from_def getTagAndDel_def)
  from 1 2 3 4 t show ?thesis by blast
qed

subsection \<open>C10: the empty static tag\<close>

text \<open>
  Claim C10. \<^verbatim>\<open>SetTag("")\<close> installs a static tag that is the empty string: from then on
  \<^verbatim>\<open>getTagAndDel\<close> returns \<^verbatim>\<open>""\<close> and the record as it was, for every entry and
  record. \<^verbatim>\<open>Tag()\<close> returns \<^verbatim>\<open>""\<close> for that hook, and also for a hook with no static
  tag, such as the one \<^verbatim>\<open>NewWithConfig\<close> returns for an empty \<^verbatim>\<open>DefaultTag\<close>.
\<close>

theorem empty_static_tag:
  "tag (SetTag hook '''') = Some '''' \<and>
   getTagAndDel (SetTag hook '''') e d = ('''', d) \<and>
   Fire_resolved (SetTag hook '''') entry =
     ('''', snd (Fire_customized (SetTag hook '''') entry)) \<and>
   Tag (SetTag hook '''') = '''' \<and>
   Tag (hook\<lparr>tag := None\<rparr>) = '''' \<and>
   (NewWithConfig tr c = Inr hook \<and> DefaultTag c = '''' \<longrightarrow> tag hook = None \<and> Tag hook = '''')"
  by (auto simp: SetTag_def Tag_def getTagAndDel_def Fire_resolved_def NewWithConfig_def Let_def
      split: prod.splits if_splits option.splits)

theorem empty_static_tag_witness:
  "NewWithConfig open_transport (conf plain_hook) = Inr plain_hook \<and>
   DefaultTag (conf plain_hook) = '''' \<and>
   tag plain_hook = None \<and> Tag plain_hook = '''' \<and>
   tag (SetTag plain_hook '''') = Some '''' \<and> Tag (SetTag plain_hook '''') = '''' \<and>
   Fire_resolved (SetTag plain_hook '''') boom_entry =
     ('''', snd (Fire_customized (SetTag plain_hook '''') boom_entry)) \<and>
   snd (Fire_resolved (SetTag plain_hook '''') boom_entry) ''tag'' = Some (VString ''svc.errors'') \<and>
   fst (Fire_resolved plain_hook boom_entry) = ''svc.errors''"
proof -
  have n: "NewWithConfig open_transport (conf plain_hook) = Inr plain_hook"
    "DefaultTag (conf plain_hook) = ''''"
    by (simp_all add: NewWithConfig_def plain_hook_def)
  have f: "snd (Fire_customized (SetTag plain_hook '''') boom_entry) ''tag'' =
      Some (VString ''svc.errors'')"
    "fst (Fire_resolved plain_hook boom_entry) = ''svc.errors''"
    by (simp_all add: example_defs)
  from empty_static_tag
      [of plain_hook boom_entry Map.empty boom_entry open_transport "conf plain_hook"] n f
  show ?thesis by simp
qed

end
